theory Spec2Isabelle
  imports Main "HOL-Library.Word" "HOL-Library.Multiset"
begin

section \<open>Data model of \<^verbatim>\<open>main.go\<close>\<close>

text \<open>
  Go's \<^verbatim>\<open>int64\<close> is a 64-bit word, a Go \<^verbatim>\<open>string\<close> a list of bytes. A
  \<^verbatim>\<open>time.Time\<close> is an instant; \<^verbatim>\<open>Before\<close> and \<^verbatim>\<open>After\<close> compare
  instants strictly, so an instant is modelled by its number of nanoseconds since the Unix
  epoch.
\<close>

type_synonym int64 = "64 word"
type_synonym Time = int

definition Before :: "Time \<Rightarrow> Time \<Rightarrow> bool" where
  "Before t u \<longleftrightarrow> t < u"

definition After :: "Time \<Rightarrow> Time \<Rightarrow> bool" where
  "After t u \<longleftrightarrow> u < t"

text \<open>\<^verbatim>\<open>time.Parse("2006-01-02", "2000-01-01")\<close> and \<^verbatim>\<open>"2100-01-01"\<close>: midnight UTC.\<close>

definition date_2000_01_01 :: Time where
  "date_2000_01_01 = 946684800 * 1000000000"

definition date_2100_01_01 :: Time where
  "date_2100_01_01 = 4102444800 * 1000000000"

record Class =
  c_ID :: int64
  c_Name :: string
  c_Grade :: string

record Assignment =
  a_ID :: int64
  a_Name :: string
  a_Grade :: string
  a_ClassID :: int64
  a_ClassName :: string

record WebhookMessage =
  Content :: string

text \<open>
  Modelled from the spec: the record types of the imported \<^verbatim>\<open>ps-diff/powerschool\<close>
  package, whose declarations are not part of \<^verbatim>\<open>main.go\<close>. The fields are the
  ones \<^verbatim>\<open>fetchAndCompare\<close> reads, with the types its uses force (map keys of
  \<^verbatim>\<open>map[int64]\<close>, arguments of \<^verbatim>\<open>time.Time\<close> methods, operands of string
  comparison).
\<close>

record Section =
  s_Id :: int64
  s_SchoolCourseTitle :: string

record ReportingTerm =
  rt_Id :: int64
  rt_Title :: string
  rt_StartDate :: Time
  rt_EndDate :: Time

record FinalGrade =
  fg_Sectionid :: int64
  fg_ReportingTermId :: int64
  fg_Grade :: string

record PsAssignment =
  pa_Id :: int64
  pa_Name :: string
  pa_Sectionid :: int64
  pa_DueDate :: Time

record AssignmentScore =
  as_AssignmentId :: int64
  as_Score :: string

record Student =
  Sections :: "Section list"
  ReportingTerms :: "ReportingTerm list"
  FinalGrades :: "FinalGrade list"
  Assignments :: "PsAssignment list"
  AssignmentScores :: "AssignmentScore list"

section \<open>Effects and the outside world\<close>

text \<open>
  What a cycle does to the outside is a list of effects, in program order: a line printed
  on standard output, or an HTTP POST (URL, content type, body). The two backup files are
  the persistent state. A file either holds the serialisation of a record list, or loading
  it fails with an error message (it is missing, unreadable or not valid JSON).
\<close>

datatype effect = Print string | HttpPost string string string

type_synonym 'a backup = "string + 'a list"

record store =
  backup_classes :: "Class backup"
  backup_assignments :: "Assignment backup"

text \<open>
  Everything the program reads from the outside during one cycle:
  \<^item> \<open>GetStudent\<close>: the result of \<^verbatim>\<open>client.GetStudent\<close>, an error message or the student;
  \<^item> \<open>Now\<close>: the values of the successive calls of \<^verbatim>\<open>time.Now()\<close>;
  \<^item> \<open>Marshal\<close>: \<^verbatim>\<open>json.Marshal\<close> on a webhook message, an error message or the bytes;
  \<^item> \<open>Post\<close>: the outcome of \<^verbatim>\<open>http.Post\<close> for a body, \<open>None\<close> when it succeeds;
  \<^item> \<open>WriteClasses\<close>, \<open>WriteAssignments\<close>: the outcome of marshalling and writing a
    backup file, \<open>None\<close> when it succeeds, otherwise the error message and the state the
    file is left in;
  \<^item> \<open>RangeOrder\<close>: the order in which \<^verbatim>\<open>range\<close> visits the keys of the map of old
    assignments. Go leaves this order unspecified, and it varies from one run to the next.
\<close>

record world =
  GetStudent :: "string + Student"
  Now :: "nat \<Rightarrow> Time"
  Marshal :: "WebhookMessage \<Rightarrow> string + string"
  Post :: "string \<Rightarrow> string option"
  WriteClasses :: "Class list \<Rightarrow> (string \<times> Class backup) option"
  WriteAssignments :: "Assignment list \<Rightarrow> (string \<times> Assignment backup) option"
  RangeOrder :: "int64 list"

text \<open>
  A \<^verbatim>\<open>range\<close> over a Go map visits every key exactly once: \<open>ks\<close> is a possible order
  of visit for the map \<open>m\<close> when it lists the keys of \<open>m\<close> without repetition.
\<close>

definition range_order :: "('k \<rightharpoonup> 'v) \<Rightarrow> 'k list \<Rightarrow> bool" where
  "range_order m ks \<longleftrightarrow> distinct ks \<and> set ks = dom m"

subsection \<open>Constants and logging\<close>

definition ColorReset :: string where "ColorReset = CHR 0x1B # ''[0m''"
definition ColorRed :: string where "ColorRed = CHR 0x1B # ''[31m''"
definition ColorGreen :: string where "ColorGreen = CHR 0x1B # ''[32m''"
definition ColorYellow :: string where "ColorYellow = CHR 0x1B # ''[33m''"
definition ColorCyan :: string where "ColorCyan = CHR 0x1B # ''[36m''"

definition newline :: string where "newline = [CHR 0x0A]"

definition discordWebhookURL :: string where
  "discordWebhookURL = ''<YOUR_DISCORD_WEBHOOK_URL>''"

definition logInfo :: "string \<Rightarrow> effect list" where
  "logInfo msg = [Print (ColorCyan @ ''[INFO] '' @ msg @ ColorReset @ newline)]"

definition logWarning :: "string \<Rightarrow> effect list" where
  "logWarning msg = [Print (ColorYellow @ ''[WARN] '' @ msg @ ColorReset @ newline)]"

definition logSuccess :: "string \<Rightarrow> effect list" where
  "logSuccess msg = [Print (ColorGreen @ ''[SUCCESS] '' @ msg @ ColorReset @ newline)]"

definition logError :: "string \<Rightarrow> effect list" where
  "logError msg = [Print (ColorRed @ ''[ERROR] '' @ msg @ ColorReset @ newline)]"

subsection \<open>Backup and restore\<close>

definition loadBackupDataClasses :: "store \<Rightarrow> Class list \<times> string option" where
  "loadBackupDataClasses st =
     (case backup_classes st of Inl err \<Rightarrow> ([], Some err) | Inr classes \<Rightarrow> (classes, None))"

definition loadBackupDataAssignments :: "store \<Rightarrow> Assignment list \<times> string option" where
  "loadBackupDataAssignments st =
     (case backup_assignments st of
        Inl err \<Rightarrow> ([], Some err)
      | Inr assignments \<Rightarrow> (assignments, None))"

definition saveBackupDataClasses :: "world \<Rightarrow> store \<Rightarrow> Class list \<Rightarrow> store \<times> string option" where
  "saveBackupDataClasses w st classes =
     (case WriteClasses w classes of
        None \<Rightarrow> (st\<lparr>backup_classes := Inr classes\<rparr>, None)
      | Some (err, left) \<Rightarrow> (st\<lparr>backup_classes := left\<rparr>, Some err))"

definition saveBackupDataAssignments ::
  "world \<Rightarrow> store \<Rightarrow> Assignment list \<Rightarrow> store \<times> string option" where
  "saveBackupDataAssignments w st assignments =
     (case WriteAssignments w assignments of
        None \<Rightarrow> (st\<lparr>backup_assignments := Inr assignments\<rparr>, None)
      | Some (err, left) \<Rightarrow> (st\<lparr>backup_assignments := left\<rparr>, Some err))"

subsection \<open>Discord notifications\<close>

definition sendDiscordNotification :: "world \<Rightarrow> string \<Rightarrow> effect list" where
  "sendDiscordNotification w message =
     (if message = [] then []
      else case Marshal w \<lparr>Content = message\<rparr> of
        Inl err \<Rightarrow> logError (''Error marshaling JSON: '' @ err)
      | Inr jsonData \<Rightarrow>
          HttpPost discordWebhookURL ''application/json'' jsonData #
          (case Post w jsonData of
             Some err \<Rightarrow> logError (''Error sending webhook: '' @ err)
           | None \<Rightarrow> logSuccess ''Discord notification sent!''))"

section \<open>The diff engine\<close>

text \<open>\<^verbatim>\<open>strings.Join\<close>.\<close>

fun Join :: "string list \<Rightarrow> string \<Rightarrow> string" where
  "Join [] sep = []"
| "Join [x] sep = x"
| "Join (x # y # ys) sep = x @ sep @ Join (y # ys) sep"

subsection \<open>Assignments\<close>

text \<open>The three \<^verbatim>\<open>fmt.Sprintf\<close> calls of \<^verbatim>\<open>compareAssignmentsAndNotifyChanges\<close>.\<close>

definition assignmentGradeChanged :: "Assignment \<Rightarrow> Assignment \<Rightarrow> string" where
  "assignmentGradeChanged oldAssignment newAssignment =
     ''Grade changed for assignment '' @ [CHR 0x27] @ a_Name newAssignment @ [CHR 0x27] @
     '' in class '' @ a_ClassName newAssignment @ '': '' @ a_Grade oldAssignment @
     '' -> '' @ a_Grade newAssignment"

definition assignmentAdded :: "Assignment \<Rightarrow> string" where
  "assignmentAdded newAssignment =
     ''New assignment added: '' @ [CHR 0x27] @ a_Name newAssignment @ [CHR 0x27] @
     '' in class '' @ a_ClassName newAssignment @ '' with grade '' @ a_Grade newAssignment"

definition assignmentRemoved :: "Assignment \<Rightarrow> string" where
  "assignmentRemoved deletedAssignment =
     ''Assignment removed: '' @ [CHR 0x27] @ a_Name deletedAssignment @ [CHR 0x27] @
     '' from class '' @ a_ClassName deletedAssignment"

text \<open>The first loop: index the old assignments by id; a later record overwrites an earlier one.\<close>

fun oldAssignmentMap_loop ::
  "(int64 \<rightharpoonup> Assignment) \<Rightarrow> Assignment list \<Rightarrow> (int64 \<rightharpoonup> Assignment)" where
  "oldAssignmentMap_loop m [] = m"
| "oldAssignmentMap_loop m (assignment # rest) =
     oldAssignmentMap_loop (m(a_ID assignment \<mapsto> assignment)) rest"

text \<open>The second loop, over the new assignments; the state is \<open>(changes, oldAssignmentMap)\<close>.\<close>

fun newAssignment_loop ::
  "string list \<times> (int64 \<rightharpoonup> Assignment) \<Rightarrow> Assignment list \<Rightarrow>
   string list \<times> (int64 \<rightharpoonup> Assignment)" where
  "newAssignment_loop (changes, m) [] = (changes, m)"
| "newAssignment_loop (changes, m) (newAssignment # rest) =
     (case m (a_ID newAssignment) of
        Some oldAssignment \<Rightarrow>
          newAssignment_loop
            (if a_Grade oldAssignment \<noteq> a_Grade newAssignment
             then changes @ [assignmentGradeChanged oldAssignment newAssignment]
             else changes,
             m(a_ID newAssignment := None)) rest
      | None \<Rightarrow> newAssignment_loop (changes @ [assignmentAdded newAssignment], m) rest)"

text \<open>
  The third loop ranges over what is left of the map, in the order \<open>ks\<close> the runtime
  picks. In a run \<open>ks\<close> lists the keys of the map, each once (\<open>range_order\<close>); the
  function is total, and skips an element of \<open>ks\<close> that is not a key.
\<close>

fun deletedAssignment_loop ::
  "string list \<Rightarrow> (int64 \<rightharpoonup> Assignment) \<Rightarrow> int64 list \<Rightarrow> string list" where
  "deletedAssignment_loop changes m [] = changes"
| "deletedAssignment_loop changes m (k # ks) =
     (case m k of
        Some deletedAssignment \<Rightarrow>
          deletedAssignment_loop (changes @ [assignmentRemoved deletedAssignment]) m ks
      | None \<Rightarrow> deletedAssignment_loop changes m ks)"

text \<open>The value of \<^verbatim>\<open>changes\<close> after the three loops, and the map the third loop ranges over.\<close>

definition assignmentsLeft :: "Assignment list \<Rightarrow> Assignment list \<Rightarrow> (int64 \<rightharpoonup> Assignment)" where
  "assignmentsLeft oldAssignments newAssignments =
     snd (newAssignment_loop ([], oldAssignmentMap_loop Map.empty oldAssignments) newAssignments)"

definition assignmentChanges ::
  "int64 list \<Rightarrow> Assignment list \<Rightarrow> Assignment list \<Rightarrow> string list" where
  "assignmentChanges ks oldAssignments newAssignments =
     (let (changes, m) =
        newAssignment_loop ([], oldAssignmentMap_loop Map.empty oldAssignments) newAssignments
      in deletedAssignment_loop changes m ks)"

definition compareAssignmentsAndNotifyChanges ::
  "world \<Rightarrow> Assignment list \<Rightarrow> Assignment list \<Rightarrow> effect list" where
  "compareAssignmentsAndNotifyChanges w oldAssignments newAssignments =
     (let changes = assignmentChanges (RangeOrder w) oldAssignments newAssignments
      in if length changes > 0 then sendDiscordNotification w (Join changes newline)
         else logInfo ''No changes in Assignments.'')"

subsection \<open>Classes\<close>

definition classGradeChanged :: "string \<Rightarrow> Class \<Rightarrow> string" where
  "classGradeChanged oldGrade class =
     ''Grade changed for '' @ c_Name class @ '': '' @ oldGrade @ '' -> '' @ c_Grade class"

definition classAdded :: "Class \<Rightarrow> string" where
  "classAdded class = ''New class added: '' @ c_Name class @ '' with grade '' @ c_Grade class"

fun oldGrades_loop :: "(int64 \<rightharpoonup> string) \<Rightarrow> Class list \<Rightarrow> (int64 \<rightharpoonup> string)" where
  "oldGrades_loop m [] = m"
| "oldGrades_loop m (class # rest) = oldGrades_loop (m(c_ID class \<mapsto> c_Grade class)) rest"

fun newClass_loop :: "string list \<Rightarrow> (int64 \<rightharpoonup> string) \<Rightarrow> Class list \<Rightarrow> string list" where
  "newClass_loop changes oldGrades [] = changes"
| "newClass_loop changes oldGrades (class # rest) =
     (case oldGrades (c_ID class) of
        Some oldGrade \<Rightarrow>
          newClass_loop
            (if oldGrade \<noteq> c_Grade class then changes @ [classGradeChanged oldGrade class]
             else changes) oldGrades rest
      | None \<Rightarrow> newClass_loop (changes @ [classAdded class]) oldGrades rest)"

definition classChanges :: "Class list \<Rightarrow> Class list \<Rightarrow> string list" where
  "classChanges oldClasses newClasses =
     newClass_loop [] (oldGrades_loop Map.empty oldClasses) newClasses"

definition compareGradesAndNotifyChanges ::
  "world \<Rightarrow> Class list \<Rightarrow> Class list \<Rightarrow> effect list" where
  "compareGradesAndNotifyChanges w oldClasses newClasses =
     (let changes = classChanges oldClasses newClasses
      in if length changes > 0 then sendDiscordNotification w (Join changes newline)
         else logInfo ''No changes in Classes.'')"

section \<open>The cycle: \<^verbatim>\<open>fetchAndCompare\<close>\<close>

text \<open>\<^verbatim>\<open>strings.HasPrefix\<close>.\<close>

definition HasPrefix :: "string \<Rightarrow> string \<Rightarrow> bool" where
  "HasPrefix s p \<longleftrightarrow> take (length p) s = p"

text \<open>Reading a Go map at a key it does not hold gives the zero value of the value type.\<close>

definition allowed :: "(int64 \<rightharpoonup> bool) \<Rightarrow> int64 \<Rightarrow> bool" where
  "allowed allowedTerms k = (case allowedTerms k of Some b \<Rightarrow> b | None \<Rightarrow> False)"

definition title :: "(int64 \<rightharpoonup> string) \<Rightarrow> int64 \<Rightarrow> string" where
  "title idMap k = (case idMap k of Some t \<Rightarrow> t | None \<Rightarrow> [])"

fun idMap_loop :: "(int64 \<rightharpoonup> string) \<Rightarrow> Section list \<Rightarrow> (int64 \<rightharpoonup> string)" where
  "idMap_loop idMap [] = idMap"
| "idMap_loop idMap (course # rest) =
     idMap_loop (idMap(s_Id course \<mapsto> s_SchoolCourseTitle course)) rest"

text \<open>
  The loop over the reporting terms. Its state is \<open>(n, allowedTerms, termBeginDate,
  termDueDate)\<close>, where \<open>n\<close> counts the calls of \<^verbatim>\<open>time.Now()\<close> made so far: the
  condition reads the clock once, and a second time only when the first conjunct holds.
\<close>

fun reportingTerm_loop ::
  "(nat \<Rightarrow> Time) \<Rightarrow> nat \<times> (int64 \<rightharpoonup> bool) \<times> Time \<times> Time \<Rightarrow> ReportingTerm list \<Rightarrow>
   nat \<times> (int64 \<rightharpoonup> bool) \<times> Time \<times> Time" where
  "reportingTerm_loop now (n, allowedTerms, termBeginDate, termDueDate) [] =
     (n, allowedTerms, termBeginDate, termDueDate)"
| "reportingTerm_loop now (n, allowedTerms, termBeginDate, termDueDate) (reportingTerm # rest) =
     (if After (now n) (rt_StartDate reportingTerm) then
        (if Before (now (n + 1)) (rt_EndDate reportingTerm) \<and>
            HasPrefix (rt_Title reportingTerm) ''Q''
         then reportingTerm_loop now
                (n + 2, allowedTerms(rt_Id reportingTerm \<mapsto> True),
                 (if After termBeginDate (rt_StartDate reportingTerm)
                  then rt_StartDate reportingTerm else termBeginDate),
                 (if Before termDueDate (rt_EndDate reportingTerm)
                  then rt_EndDate reportingTerm else termDueDate)) rest
         else reportingTerm_loop now (n + 2, allowedTerms, termBeginDate, termDueDate) rest)
      else reportingTerm_loop now (n + 1, allowedTerms, termBeginDate, termDueDate) rest)"

fun finalGrade_loop ::
  "Class list \<Rightarrow> (int64 \<rightharpoonup> bool) \<Rightarrow> (int64 \<rightharpoonup> string) \<Rightarrow> FinalGrade list \<Rightarrow> Class list" where
  "finalGrade_loop newClasses allowedTerms idMap [] = newClasses"
| "finalGrade_loop newClasses allowedTerms idMap (finalGrade # rest) =
     (if allowed allowedTerms (fg_ReportingTermId finalGrade)
      then finalGrade_loop
             (newClasses @
              [\<lparr>c_ID = fg_Sectionid finalGrade,
                c_Name = title idMap (fg_Sectionid finalGrade),
                c_Grade = fg_Grade finalGrade\<rparr>]) allowedTerms idMap rest
      else finalGrade_loop newClasses allowedTerms idMap rest)"

fun assignmentScoreMap_loop ::
  "(int64 \<rightharpoonup> string) \<Rightarrow> AssignmentScore list \<Rightarrow> (int64 \<rightharpoonup> string)" where
  "assignmentScoreMap_loop m [] = m"
| "assignmentScoreMap_loop m (assignment # rest) =
     (if as_Score assignment \<noteq> []
      then assignmentScoreMap_loop
             (m(as_AssignmentId assignment \<mapsto> as_Score assignment @ ''%'')) rest
      else assignmentScoreMap_loop m rest)"

text \<open>The inner loop that resolves the class name, left at the first match.\<close>

fun className_loop :: "Class list \<Rightarrow> int64 \<Rightarrow> string" where
  "className_loop [] sectionid = []"
| "className_loop (class # rest) sectionid =
     (if c_ID class = sectionid then c_Name class else className_loop rest sectionid)"

fun psAssignment_loop ::
  "Assignment list \<Rightarrow> Time \<Rightarrow> Time \<Rightarrow> (int64 \<rightharpoonup> string) \<Rightarrow> Class list \<Rightarrow>
   PsAssignment list \<Rightarrow> Assignment list" where
  "psAssignment_loop newAssignments termBeginDate termDueDate assignmentScoreMap newClasses [] =
     newAssignments"
| "psAssignment_loop newAssignments termBeginDate termDueDate assignmentScoreMap newClasses
     (assignment # rest) =
     (if Before (pa_DueDate assignment) termDueDate \<and>
         After (pa_DueDate assignment) termBeginDate
      then (case assignmentScoreMap (pa_Id assignment) of
              None \<Rightarrow>
                psAssignment_loop newAssignments termBeginDate termDueDate assignmentScoreMap
                  newClasses rest
            | Some grade \<Rightarrow>
                psAssignment_loop
                  (newAssignments @
                   [\<lparr>a_ID = pa_Id assignment,
                     a_Name = pa_Name assignment,
                     a_Grade = grade,
                     a_ClassID = pa_Sectionid assignment,
                     a_ClassName = className_loop newClasses (pa_Sectionid assignment)\<rparr>])
                  termBeginDate termDueDate assignmentScoreMap newClasses rest)
      else psAssignment_loop newAssignments termBeginDate termDueDate assignmentScoreMap
             newClasses rest)"

text \<open>
  The values \<^verbatim>\<open>fetchAndCompare\<close> computes from the student record between the fetch and
  the comparison: the state after the loop over the reporting terms, the window it leaves
  in \<^verbatim>\<open>termBeginDate\<close> and \<^verbatim>\<open>termDueDate\<close>, the score map, and the two new
  collections.
\<close>

definition termState :: "(nat \<Rightarrow> Time) \<Rightarrow> ReportingTerm list \<Rightarrow> nat \<times> (int64 \<rightharpoonup> bool) \<times> Time \<times> Time" where
  "termState now terms =
     reportingTerm_loop now (0, Map.empty, date_2100_01_01, date_2000_01_01) terms"

definition allowedTermsOf :: "(nat \<Rightarrow> Time) \<Rightarrow> ReportingTerm list \<Rightarrow> (int64 \<rightharpoonup> bool)" where
  "allowedTermsOf now terms = fst (snd (termState now terms))"

definition termWindow :: "(nat \<Rightarrow> Time) \<Rightarrow> ReportingTerm list \<Rightarrow> Time \<times> Time" where
  "termWindow now terms = snd (snd (termState now terms))"

definition assignmentScoreMapOf :: "AssignmentScore list \<Rightarrow> (int64 \<rightharpoonup> string)" where
  "assignmentScoreMapOf scores = assignmentScoreMap_loop Map.empty scores"

definition newClassesOf :: "(nat \<Rightarrow> Time) \<Rightarrow> Student \<Rightarrow> Class list" where
  "newClassesOf now student =
     finalGrade_loop [] (allowedTermsOf now (ReportingTerms student))
       (idMap_loop Map.empty (Sections student)) (FinalGrades student)"

definition newAssignmentsOf :: "(nat \<Rightarrow> Time) \<Rightarrow> Student \<Rightarrow> Assignment list" where
  "newAssignmentsOf now student =
     (let (termBeginDate, termDueDate) = termWindow now (ReportingTerms student)
      in psAssignment_loop [] termBeginDate termDueDate
           (assignmentScoreMapOf (AssignmentScores student)) (newClassesOf now student)
           (Assignments student))"

definition fetchAndCompare :: "world \<Rightarrow> store \<Rightarrow> store \<times> effect list" where
  "fetchAndCompare w st =
     (let (oldClasses, err1) = loadBackupDataClasses st;
          (oldAssignments, err2) = loadBackupDataAssignments st;
          started =
            logInfo ''Starting data fetch and comparison...'' @
            (if err1 \<noteq> None then logWarning ''Could not load old classes, possibly first run.''
             else []) @
            (if err2 \<noteq> None
             then logWarning ''Could not load old assignments, possibly first run.''
             else [])
      in case GetStudent w of
           Inl err \<Rightarrow> (st, started @ logError (''Failed to get student data: '' @ err))
         | Inr student \<Rightarrow>
             (let newClasses = newClassesOf (Now w) student;
                  newAssignments = newAssignmentsOf (Now w) student;
                  compared =
                    compareGradesAndNotifyChanges w oldClasses newClasses @
                    compareAssignmentsAndNotifyChanges w oldAssignments newAssignments;
                  (st1, saved1) = saveBackupDataClasses w st newClasses;
                  (st2, saved2) = saveBackupDataAssignments w st1 newAssignments
              in (st2,
                  started @ compared @
                  (case saved1 of
                     Some err \<Rightarrow> logError (''Failed to backup new classes data: '' @ err)
                   | None \<Rightarrow> []) @
                  (case saved2 of
                     Some err \<Rightarrow> logError (''Failed to backup new assignments data: '' @ err)
                   | None \<Rightarrow> []) @
                  logInfo ''Data fetch and comparison completed.'')))"

section \<open>Notions used to state the properties\<close>

text \<open>
  The index of the old collection after the first loop, the value of \<^verbatim>\<open>changes\<close>
  after the loop over the new assignments, and the events that report a removal.
\<close>

definition oldAssignmentMapOf :: "Assignment list \<Rightarrow> (int64 \<rightharpoonup> Assignment)" where
  "oldAssignmentMapOf oldAssignments = oldAssignmentMap_loop Map.empty oldAssignments"

definition oldGradesOf :: "Class list \<Rightarrow> (int64 \<rightharpoonup> string)" where
  "oldGradesOf oldClasses = oldGrades_loop Map.empty oldClasses"

definition changesAfterNew :: "Assignment list \<Rightarrow> Assignment list \<Rightarrow> string list" where
  "changesAfterNew oldAssignments newAssignments =
     fst (newAssignment_loop ([], oldAssignmentMapOf oldAssignments) newAssignments)"

definition isRemoved :: "string \<Rightarrow> bool" where
  "isRemoved e \<longleftrightarrow> HasPrefix e ''Assignment removed: ''"


subsection \<open>Sample records\<close>

definition hw1 :: Assignment where
  "hw1 = \<lparr>a_ID = 1, a_Name = ''HW1'', a_Grade = ''90%'', a_ClassID = 5, a_ClassName = ''Math''\<rparr>"

definition hw2 :: Assignment where
  "hw2 = \<lparr>a_ID = 2, a_Name = ''HW2'', a_Grade = ''80%'', a_ClassID = 5, a_ClassName = ''Math''\<rparr>"

definition math :: Class where
  "math = \<lparr>c_ID = 5, c_Name = ''Math'', c_Grade = ''B''\<rparr>"

definition art :: Class where
  "art = \<lparr>c_ID = 6, c_Name = ''Art'', c_Grade = ''C''\<rparr>"

subsection \<open>The events of one new record, and the last old record of an id\<close>







definition math_regraded :: Class where
  "math_regraded = \<lparr>c_ID = 5, c_Name = ''Math'', c_Grade = ''A''\<rparr>"


subsection \<open>Messages sent, and a sample cycle\<close>

text \<open>The bodies of the HTTP POSTs among a list of effects, in order.\<close>

fun posted :: "effect list \<Rightarrow> string list" where
  "posted [] = []"
| "posted (Print line # es) = posted es"
| "posted (HttpPost url contentType body # es) = body # posted es"

text \<open>
  A sample student record (a quarter and a semester that overlap, one graded assignment
  due inside the quarter, one due after it, one not graded), a world in which every
  operation succeeds and the clock reads 2024-02-01, a world in which the fetch fails, and
  a state of the two backup files.
\<close>

definition unix :: "int \<Rightarrow> Time" where
  "unix s = s * 1000000000"

definition sample_student :: Student where
  "sample_student =
     \<lparr>Sections =
        [\<lparr>s_Id = 5, s_SchoolCourseTitle = ''Math''\<rparr>, \<lparr>s_Id = 6, s_SchoolCourseTitle = ''Art''\<rparr>],
      ReportingTerms =
        [\<lparr>rt_Id = 10, rt_Title = ''Q1'', rt_StartDate = unix 1704067200,
          rt_EndDate = unix 1710460800\<rparr>,
         \<lparr>rt_Id = 11, rt_Title = ''S1'', rt_StartDate = unix 1704067200,
          rt_EndDate = unix 1717200000\<rparr>],
      FinalGrades =
        [\<lparr>fg_Sectionid = 5, fg_ReportingTermId = 10, fg_Grade = ''B''\<rparr>,
         \<lparr>fg_Sectionid = 5, fg_ReportingTermId = 11, fg_Grade = ''B+''\<rparr>],
      Assignments =
        [\<lparr>pa_Id = 1, pa_Name = ''HW1'', pa_Sectionid = 5, pa_DueDate = unix 1707955200\<rparr>,
         \<lparr>pa_Id = 2, pa_Name = ''HW2'', pa_Sectionid = 5, pa_DueDate = unix 1717200000\<rparr>,
         \<lparr>pa_Id = 3, pa_Name = ''HW3'', pa_Sectionid = 5, pa_DueDate = unix 1707955200\<rparr>],
      AssignmentScores =
        [\<lparr>as_AssignmentId = 1, as_Score = ''90''\<rparr>,
         \<lparr>as_AssignmentId = 2, as_Score = ''80''\<rparr>,
         \<lparr>as_AssignmentId = 3, as_Score = []\<rparr>]\<rparr>"

definition sample_world :: world where
  "sample_world =
     \<lparr>GetStudent = Inr sample_student,
      Now = (\<lambda>n. unix 1706745600),
      Marshal = (\<lambda>message. Inr (Content message)),
      Post = (\<lambda>body. None),
      WriteClasses = (\<lambda>classes. None),
      WriteAssignments = (\<lambda>assignments. None),
      RangeOrder = []\<rparr>"

definition sample_store :: store where
  "sample_store = \<lparr>backup_classes = Inr [math_regraded], backup_assignments = Inl ''no such file''\<rparr>"

definition failing_world :: world where
  "failing_world = sample_world\<lparr>GetStudent := Inl ''connection refused''\<rparr>"

subsection \<open>Active terms and the window\<close>

text \<open>
  A term is active at an instant when the instant is strictly after its start date and
  strictly before its end date and its title has the prefix \<^verbatim>\<open>Q\<close>; a due date is
  inside a window when it is strictly between its two bounds.
\<close>

definition active :: "Time \<Rightarrow> ReportingTerm \<Rightarrow> bool" where
  "active now t \<longleftrightarrow> rt_StartDate t < now \<and> now < rt_EndDate t \<and> HasPrefix (rt_Title t) ''Q''"

definition activeTerms :: "Time \<Rightarrow> ReportingTerm list \<Rightarrow> ReportingTerm list" where
  "activeTerms now terms = filter (active now) terms"

definition inWindow :: "Time \<times> Time \<Rightarrow> Time \<Rightarrow> bool" where
  "inWindow window dueDate \<longleftrightarrow> fst window < dueDate \<and> dueDate < snd window"

text \<open>
  Sample terms: a quarter of 1999, and two quarter terms that overlap at 2024-02-01.
\<close>

definition q_1999 :: ReportingTerm where
  "q_1999 = \<lparr>rt_Id = 1, rt_Title = ''Q4'', rt_StartDate = unix 915148800,
             rt_EndDate = unix 944006400\<rparr>"

definition two_quarters :: "ReportingTerm list" where
  "two_quarters =
     [\<lparr>rt_Id = 10, rt_Title = ''Q1'', rt_StartDate = unix 1704067200,
       rt_EndDate = unix 1710460800\<rparr>,
      \<lparr>rt_Id = 12, rt_Title = ''Q1 mid'', rt_StartDate = unix 1705276800,
       rt_EndDate = unix 1717200000\<rparr>]"

section \<open>Properties of the diff engine\<close>

subsection \<open>The three loops of the assignment diff\<close>

lemma find_app:
  "find P (xs @ ys) = (case find P xs of None \<Rightarrow> find P ys | Some x \<Rightarrow> Some x)"
  by (induction xs) auto


lemma oldAssignmentMap_loop_dom:
  "dom (oldAssignmentMap_loop m old) = dom m \<union> a_ID ` set old"
  by (induction old arbitrary: m) auto


lemma oldGrades_loop_dom: "dom (oldGrades_loop m old) = dom m \<union> c_ID ` set old"
  by (induction old arbitrary: m) auto

lemma newAssignment_loop_changes:
  "fst (newAssignment_loop (changes, m) new) = changes @ fst (newAssignment_loop ([], m) new)"
proof (induction new arbitrary: changes m)
  case Nil
  then show ?case by simp
next
  case (Cons n new)
  show ?case
    by (simp split: option.splits)
      (metis Cons.IH append.assoc)
qed

lemma newAssignment_loop_left_apply:
  "snd (newAssignment_loop (changes, m) new) k = (if k \<in> a_ID ` set new then None else m k)"
  by (induction new arbitrary: changes m) (auto split: option.splits)

lemma newAssignment_loop_left:
  "snd (newAssignment_loop (changes, m) new) = m |` (- a_ID ` set new)"
  by (rule ext) (simp add: newAssignment_loop_left_apply restrict_map_def)

lemma newAssignment_loop_append:
  "newAssignment_loop s (xs @ ys) = newAssignment_loop (newAssignment_loop s xs) ys"
  by (induction s xs rule: newAssignment_loop.induct) (auto split: option.splits)

lemma deletedAssignment_loop_map:
  "set ks \<subseteq> dom m \<Longrightarrow>
   deletedAssignment_loop changes m ks = changes @ map (\<lambda>k. assignmentRemoved (the (m k))) ks"
  by (induction ks arbitrary: changes) auto

lemma assignmentsLeft_apply:
  "assignmentsLeft old new k =
     (if k \<in> a_ID ` set new then None else oldAssignmentMapOf old k)"
  by (simp add: assignmentsLeft_def oldAssignmentMapOf_def newAssignment_loop_left_apply)

lemma assignmentsLeft_dom: "dom (assignmentsLeft old new) = a_ID ` set old - a_ID ` set new"
  by (auto simp: dom_def assignmentsLeft_apply oldAssignmentMapOf_def
      oldAssignmentMap_loop_dom [of Map.empty, simplified, symmetric] split: if_splits)

lemma assignmentChanges_split:
  assumes "range_order (assignmentsLeft old new) ks"
  shows "assignmentChanges ks old new =
           changesAfterNew old new @
           map (\<lambda>k. assignmentRemoved (the (oldAssignmentMapOf old k))) ks"
proof -
  have sub: "set ks \<subseteq> dom (assignmentsLeft old new)"
    using assms by (simp add: range_order_def)
  have same: "the (assignmentsLeft old new k) = the (oldAssignmentMapOf old k)" if "k \<in> set ks" for k
    using that sub by (auto simp: assignmentsLeft_apply dom_def split: if_splits)
  have "assignmentChanges ks old new =
          deletedAssignment_loop (changesAfterNew old new) (assignmentsLeft old new) ks"
    by (simp add: assignmentChanges_def changesAfterNew_def assignmentsLeft_def
        oldAssignmentMapOf_def split: prod.splits)
  also have "\<dots> = changesAfterNew old new @
      map (\<lambda>k. assignmentRemoved (the (assignmentsLeft old new k))) ks"
    using sub by (rule deletedAssignment_loop_map)
  finally show ?thesis using same by simp
qed

lemma assignmentAdded_not_removed: "\<not> isRemoved (assignmentAdded n)"
  by (simp add: isRemoved_def HasPrefix_def assignmentAdded_def)

lemma assignmentGradeChanged_not_removed: "\<not> isRemoved (assignmentGradeChanged old n)"
  by (simp add: isRemoved_def HasPrefix_def assignmentGradeChanged_def)

lemma newAssignment_loop_not_removed:
  "list_all (\<lambda>e. \<not> isRemoved e) changes \<Longrightarrow>
   list_all (\<lambda>e. \<not> isRemoved e) (fst (newAssignment_loop (changes, m) new))"
proof (induction new arbitrary: changes m)
  case Nil
  then show ?case by simp
next
  case (Cons n new)
  show ?case
  proof (cases "m (a_ID n)")
    case None
    have "list_all (\<lambda>e. \<not> isRemoved e) (changes @ [assignmentAdded n])"
      using Cons.prems by (simp add: assignmentAdded_not_removed)
    from Cons.IH [OF this] None show ?thesis by simp
  next
    case (Some old)
    have "list_all (\<lambda>e. \<not> isRemoved e) (changes @ [assignmentGradeChanged old n])"
      using Cons.prems by (simp add: assignmentGradeChanged_not_removed)
    from Cons.IH [OF this] Cons.IH [OF Cons.prems] Some show ?thesis by simp
  qed
qed

lemma changesAfterNew_not_removed: "e \<in> set (changesAfterNew old new) \<Longrightarrow> \<not> isRemoved e"
  using newAssignment_loop_not_removed [of "[]" "oldAssignmentMapOf old" new]
  by (simp add: changesAfterNew_def list_all_iff)

lemma assignmentRemoved_isRemoved: "isRemoved (assignmentRemoved a)"
  by (simp add: isRemoved_def HasPrefix_def assignmentRemoved_def)

lemma assignment_removed_events:
  assumes "range_order (assignmentsLeft old new) ks"
  shows "filter isRemoved (assignmentChanges ks old new) =
           map (\<lambda>k. assignmentRemoved (the (oldAssignmentMapOf old k))) ks"
    and "distinct ks" and "set ks = a_ID ` set old - a_ID ` set new"
proof -
  have "filter isRemoved (changesAfterNew old new) = []"
    by (simp add: filter_empty_conv changesAfterNew_not_removed)
  then show "filter isRemoved (assignmentChanges ks old new) =
           map (\<lambda>k. assignmentRemoved (the (oldAssignmentMapOf old k))) ks"
    by (simp add: assignmentChanges_split [OF assms] filter_map o_def assignmentRemoved_isRemoved)
  show "distinct ks" "set ks = a_ID ` set old - a_ID ` set new"
    using assms by (simp_all add: range_order_def assignmentsLeft_dom)
qed


subsection \<open>Removed records\<close>

text \<open>
  C1. The diff is to emit one "removed" event for each id of the old collection that the new
  collection lacks, in the class diff as in the assignment diff. The class diff has no
  loop over what is left of its index: for an old class that the new collection lacks it
  reports nothing, and logs that there is no change. The assignment diff reports the same
  situation.
\<close>

theorem class_removed_not_reported:
  "classChanges [\<lparr>c_ID = 1, c_Name = ''Math'', c_Grade = ''A''\<rparr>] [] = [] \<and>
   compareGradesAndNotifyChanges w [\<lparr>c_ID = 1, c_Name = ''Math'', c_Grade = ''A''\<rparr>] [] =
     logInfo ''No changes in Classes.'' \<and>
   assignmentChanges [1]
     [\<lparr>a_ID = 1, a_Name = ''HW1'', a_Grade = ''90%'', a_ClassID = 5, a_ClassName = ''Math''\<rparr>] [] =
     [''Assignment removed: '' @ [CHR 0x27] @ ''HW1'' @ [CHR 0x27] @ '' from class Math'']"
  by (simp add: classChanges_def compareGradesAndNotifyChanges_def assignmentChanges_def
      assignmentRemoved_def)

subsection \<open>Collections with disjoint ids\<close>

lemma newClass_loop_changes:
  "newClass_loop changes oldGrades new = changes @ newClass_loop [] oldGrades new"
proof (induction new arbitrary: changes)
  case Nil
  then show ?case by simp
next
  case (Cons c new)
  show ?case
    by (simp split: option.splits) (metis Cons.IH append.assoc)
qed

lemma newClass_loop_append:
  "newClass_loop changes oldGrades (xs @ ys) =
     newClass_loop (newClass_loop changes oldGrades xs) oldGrades ys"
  by (induction xs arbitrary: changes) (auto split: option.splits)

lemma newClass_loop_disjoint:
  "dom oldGrades \<inter> c_ID ` set new = {} \<Longrightarrow>
   newClass_loop changes oldGrades new = changes @ map classAdded new"
  by (induction new arbitrary: changes) (auto split: option.splits)

lemma newAssignment_loop_disjoint:
  "dom m \<inter> a_ID ` set new = {} \<Longrightarrow>
   newAssignment_loop (changes, m) new = (changes @ map assignmentAdded new, m)"
  by (induction new arbitrary: changes) (auto split: option.splits)

lemma oldGradesOf_dom: "dom (oldGradesOf old) = c_ID ` set old"
  by (simp add: oldGradesOf_def oldGrades_loop_dom)

lemma oldAssignmentMapOf_dom: "dom (oldAssignmentMapOf old) = a_ID ` set old"
  by (simp add: oldAssignmentMapOf_def oldAssignmentMap_loop_dom)

text \<open>
  C2, as amended. When no id of the old collection is an id of the new one, the pass over
  the new records emits exactly one "added" event per new record, in the order of the new
  collection, and nothing else. This is the whole output of the class diff. The
  assignment diff then ranges over its index, which still holds every old id, and emits
  one "removed" event for each distinct old id: its output has no "removed" event only
  when the old collection is empty.
\<close>

theorem disjoint_ids_added_then_removed:
  "(c_ID ` set oldClasses \<inter> c_ID ` set newClasses = {} \<longrightarrow>
      classChanges oldClasses newClasses = map classAdded newClasses) \<and>
   (a_ID ` set old \<inter> a_ID ` set new = {} \<and> range_order (assignmentsLeft old new) ks \<longrightarrow>
      assignmentChanges ks old new =
        map assignmentAdded new @
        map (\<lambda>k. assignmentRemoved (the (oldAssignmentMapOf old k))) ks \<and>
      distinct ks \<and> set ks = a_ID ` set old \<and>
      length (filter isRemoved (assignmentChanges ks old new)) = card (a_ID ` set old))"
proof (intro conjI impI)
  assume "c_ID ` set oldClasses \<inter> c_ID ` set newClasses = {}"
  then show "classChanges oldClasses newClasses = map classAdded newClasses"
    using newClass_loop_disjoint [of "oldGradesOf oldClasses" newClasses "[]"]
    by (simp add: classChanges_def oldGradesOf_dom oldGradesOf_def [symmetric])
next
  assume a: "a_ID ` set old \<inter> a_ID ` set new = {} \<and> range_order (assignmentsLeft old new) ks"
  then have ro: "range_order (assignmentsLeft old new) ks" and dj: "a_ID ` set old \<inter> a_ID ` set new = {}"
    by simp_all
  have "changesAfterNew old new = map assignmentAdded new"
    using newAssignment_loop_disjoint [of "oldAssignmentMapOf old" new "[]"] dj
    by (simp add: changesAfterNew_def oldAssignmentMapOf_dom)
  then show "assignmentChanges ks old new =
        map assignmentAdded new @
        map (\<lambda>k. assignmentRemoved (the (oldAssignmentMapOf old k))) ks"
    by (simp add: assignmentChanges_split [OF ro])
  show "distinct ks" by (rule assignment_removed_events(2) [OF ro])
  show ks: "set ks = a_ID ` set old"
    using assignment_removed_events(3) [OF ro] dj by auto
  have "length (filter isRemoved (assignmentChanges ks old new)) = length ks"
    by (simp add: assignment_removed_events(1) [OF ro])
  also have "\<dots> = card (set ks)"
    using assignment_removed_events(2) [OF ro] by (simp add: distinct_card)
  finally show "length (filter isRemoved (assignmentChanges ks old new)) = card (a_ID ` set old)"
    by (simp add: ks)
qed

lemma range_order_hw1: "range_order (assignmentsLeft [hw1] [hw2]) [1]"
  by (auto simp: range_order_def assignmentsLeft_dom hw1_def hw2_def)

theorem disjoint_ids_added_then_removed_witness:
  "c_ID ` set [math] \<inter> c_ID ` set [art] = {} \<and>
   classChanges [math] [art] = [''New class added: Art with grade C''] \<and>
   a_ID ` set [hw1] \<inter> a_ID ` set [hw2] = {} \<and>
   range_order (assignmentsLeft [hw1] [hw2]) [1] \<and>
   assignmentChanges [1] [hw1] [hw2] =
     [assignmentAdded hw2, assignmentRemoved (the (oldAssignmentMapOf [hw1] 1))]"
proof -
  have c: "c_ID ` set [math] \<inter> c_ID ` set [art] = {}"
    by (simp add: math_def art_def)
  have a: "a_ID ` set [hw1] \<inter> a_ID ` set [hw2] = {}"
    by (simp add: hw1_def hw2_def)
  from disjoint_ids_added_then_removed [of "[math]" "[art]" "[hw1]" "[hw2]" "[1]"]
    c a range_order_hw1
  show ?thesis by (simp add: classAdded_def art_def)
qed

text \<open>
  C2, as stated, fails on the assignment diff: with one old assignment and one new
  assignment of another id, the output holds a "removed" event.
\<close>

theorem disjoint_ids_removed_counterexample:
  "a_ID ` set [hw1] \<inter> a_ID ` set [hw2] = {} \<and>
   range_order (assignmentsLeft [hw1] [hw2]) [1] \<and>
   assignmentChanges [1] [hw1] [hw2] = [assignmentAdded hw2, assignmentRemoved hw1] \<and>
   filter isRemoved (assignmentChanges [1] [hw1] [hw2]) =
     [''Assignment removed: '' @ [CHR 0x27] @ ''HW1'' @ [CHR 0x27] @ '' from class Math'']"
  by (simp add: range_order_hw1)
    (simp add: assignmentChanges_def hw1_def hw2_def isRemoved_def HasPrefix_def
      assignmentAdded_def assignmentRemoved_def)


subsection \<open>Order of the events\<close>

lemma changesAfterNew_append:
  "changesAfterNew old (xs @ ys) =
     changesAfterNew old xs @ fst (newAssignment_loop ([], assignmentsLeft old xs) ys)"
proof -
  obtain c m where cm: "newAssignment_loop ([], oldAssignmentMapOf old) xs = (c, m)"
    by (cases "newAssignment_loop ([], oldAssignmentMapOf old) xs")
  then show ?thesis
    using newAssignment_loop_changes [of c m ys]
    by (simp add: changesAfterNew_def assignmentsLeft_def oldAssignmentMapOf_def
        newAssignment_loop_append)
qed

lemma classChanges_append:
  "classChanges old (xs @ ys) = classChanges old xs @ newClass_loop [] (oldGradesOf old) ys"
  using newClass_loop_changes [of "classChanges old xs" "oldGradesOf old" ys]
  by (simp add: classChanges_def newClass_loop_append oldGradesOf_def)

text \<open>
  C3, as amended. For a fixed pair of collections, every run of the assignment diff yields
  the same "grade changed" and "added" events, in the order of the new records (the
  events of a prefix of the new collection come first), followed by one "removed" event
  for each id left in the index. The "removed" events of two runs are the same up to
  their order, which is the order in which \<^verbatim>\<open>range\<close> visits the map; the two
  sequences are equal when at most one id is left. The class diff does not range over a
  map: its events follow the new records.
\<close>

theorem changes_same_up_to_range_order:
  "(range_order (assignmentsLeft old new) ks \<and> range_order (assignmentsLeft old new) ks' \<longrightarrow>
      assignmentChanges ks old new =
        changesAfterNew old new @
        map (\<lambda>k. assignmentRemoved (the (oldAssignmentMapOf old k))) ks \<and>
      assignmentChanges ks' old new =
        changesAfterNew old new @
        map (\<lambda>k. assignmentRemoved (the (oldAssignmentMapOf old k))) ks' \<and>
      mset ks = mset ks' \<and>
      mset (assignmentChanges ks old new) = mset (assignmentChanges ks' old new) \<and>
      (card (a_ID ` set old - a_ID ` set new) \<le> 1 \<longrightarrow>
         assignmentChanges ks old new = assignmentChanges ks' old new)) \<and>
   changesAfterNew old (xs @ ys) =
     changesAfterNew old xs @ fst (newAssignment_loop ([], assignmentsLeft old xs) ys) \<and>
   classChanges oldClasses (cs @ ds) =
     classChanges oldClasses cs @ newClass_loop [] (oldGradesOf oldClasses) ds"
proof (intro conjI impI)
  show "classChanges oldClasses (cs @ ds) =
      classChanges oldClasses cs @ newClass_loop [] (oldGradesOf oldClasses) ds"
    by (rule classChanges_append)
  show "changesAfterNew old (xs @ ys) =
        changesAfterNew old xs @ fst (newAssignment_loop ([], assignmentsLeft old xs) ys)"
    by (rule changesAfterNew_append)
next
  assume "range_order (assignmentsLeft old new) ks \<and> range_order (assignmentsLeft old new) ks'"
  then have ro: "range_order (assignmentsLeft old new) ks"
    and ro': "range_order (assignmentsLeft old new) ks'"
    by simp_all
  show 1: "assignmentChanges ks old new =
        changesAfterNew old new @
        map (\<lambda>k. assignmentRemoved (the (oldAssignmentMapOf old k))) ks"
    by (rule assignmentChanges_split [OF ro])
  show 2: "assignmentChanges ks' old new =
        changesAfterNew old new @
        map (\<lambda>k. assignmentRemoved (the (oldAssignmentMapOf old k))) ks'"
    by (rule assignmentChanges_split [OF ro'])
  have d: "distinct ks" "distinct ks'" and s: "set ks = set ks'"
    using ro ro' by (simp_all add: range_order_def)
  show 3: "mset ks = mset ks'"
    using d s by (simp add: set_eq_iff_mset_eq_distinct)
  show "mset (assignmentChanges ks old new) = mset (assignmentChanges ks' old new)"
    using arg_cong [OF 3, of "image_mset (\<lambda>k. assignmentRemoved (the (oldAssignmentMapOf old k)))"]
    by (simp add: 1 2)
  show "assignmentChanges ks old new = assignmentChanges ks' old new"
    if c: "card (a_ID ` set old - a_ID ` set new) \<le> 1"
  proof -
    have "length ks \<le> 1"
      using c d(1) assignment_removed_events(3) [OF ro] by (simp add: distinct_card [symmetric])
    moreover have "length ks' = length ks"
      using 3 by (metis size_mset)
    ultimately have "ks = ks'"
      using s by (cases ks; cases ks') auto
    then show ?thesis by simp
  qed
qed

lemma range_order_hw12:
  "range_order (assignmentsLeft [hw1, hw2] []) [1, 2]"
  "range_order (assignmentsLeft [hw1, hw2] []) [2, 1]"
  by (auto simp: range_order_def assignmentsLeft_dom hw1_def hw2_def)

theorem changes_same_up_to_range_order_witness:
  "range_order (assignmentsLeft [hw1, hw2] []) [1, 2] \<and>
   range_order (assignmentsLeft [hw1, hw2] []) [2, 1] \<and>
   mset (assignmentChanges [1, 2] [hw1, hw2] []) = mset (assignmentChanges [2, 1] [hw1, hw2] []) \<and>
   range_order (assignmentsLeft [hw1] [hw2]) [1] \<and>
   card (a_ID ` set [hw1] - a_ID ` set [hw2]) \<le> 1 \<and>
   assignmentChanges [1] [hw1] [hw2] =
     changesAfterNew [hw1] [hw2] @ [assignmentRemoved (the (oldAssignmentMapOf [hw1] 1))]"
proof -
  have c: "card (a_ID ` set [hw1] - a_ID ` set [hw2]) \<le> 1"
    by (simp add: hw1_def hw2_def)
  have "mset (assignmentChanges [1, 2] [hw1, hw2] []) =
        mset (assignmentChanges [2, 1] [hw1, hw2] [])"
    using changes_same_up_to_range_order [of "[hw1, hw2]" "[]" "[1, 2]" "[2, 1]", THEN conjunct1]
      range_order_hw12 by blast
  moreover have "assignmentChanges [1] [hw1] [hw2] =
     changesAfterNew [hw1] [hw2] @ [assignmentRemoved (the (oldAssignmentMapOf [hw1] 1))]"
    using changes_same_up_to_range_order [of "[hw1]" "[hw2]" "[1]" "[1]", THEN conjunct1]
      range_order_hw1 by simp
  ultimately show ?thesis
    using range_order_hw12 range_order_hw1 c by blast
qed

text \<open>
  C3, as stated, fails: with two old assignments and no new one, the two orders of visit
  of the map give two different event sequences.
\<close>

theorem range_order_changes_counterexample:
  "range_order (assignmentsLeft [hw1, hw2] []) [1, 2] \<and>
   range_order (assignmentsLeft [hw1, hw2] []) [2, 1] \<and>
   assignmentChanges [1, 2] [hw1, hw2] [] = [assignmentRemoved hw1, assignmentRemoved hw2] \<and>
   assignmentChanges [2, 1] [hw1, hw2] [] = [assignmentRemoved hw2, assignmentRemoved hw1] \<and>
   assignmentChanges [1, 2] [hw1, hw2] [] \<noteq> assignmentChanges [2, 1] [hw1, hw2] []"
  by (simp add: range_order_hw12)
    (simp add: assignmentChanges_def hw1_def hw2_def assignmentRemoved_def)

subsection \<open>The events record by record\<close>





























subsection \<open>Records present in both collections with equal grades\<close>



subsection \<open>Old collections with repeated ids\<close>




section \<open>Properties of the cycle\<close>

subsection \<open>The sample cycle\<close>

lemma sample_newClasses: "newClassesOf (\<lambda>n. unix 1706745600) sample_student = [math]"
  by (simp add: newClassesOf_def allowedTermsOf_def termState_def sample_student_def unix_def
      After_def Before_def HasPrefix_def allowed_def title_def math_def date_2000_01_01_def
      date_2100_01_01_def)

lemma sample_termWindow:
  "termWindow (\<lambda>n. unix 1706745600) (ReportingTerms sample_student) =
     (unix 1704067200, unix 1710460800)"
  by (simp add: termWindow_def termState_def sample_student_def unix_def
      After_def Before_def HasPrefix_def date_2000_01_01_def date_2100_01_01_def)

lemma sample_newAssignments: "newAssignmentsOf (\<lambda>n. unix 1706745600) sample_student = [hw1]"
  unfolding newAssignmentsOf_def sample_newClasses sample_termWindow
  by (simp add: sample_student_def unix_def assignmentScoreMapOf_def
      After_def Before_def hw1_def math_def)


subsection \<open>What is handed to the notifier\<close>

lemma posted_append: "posted (xs @ ys) = posted xs @ posted ys"
  by (induction xs rule: posted.induct) auto

lemma posted_log:
  "posted (logInfo msg) = []" "posted (logWarning msg) = []"
  "posted (logSuccess msg) = []" "posted (logError msg) = []"
  by (simp_all add: logInfo_def logWarning_def logSuccess_def logError_def)













subsection \<open>A failed fetch\<close>

text \<open>
  C8. When \<^verbatim>\<open>GetStudent\<close> fails, the cycle leaves the two backup files as they were,
  posts nothing, and its only effects are the log lines written before the fetch and the
  error line: neither comparison runs and neither file is written.
\<close>

theorem fetch_failure_leaves_snapshots:
  "GetStudent w = Inl err \<Longrightarrow>
   fst (fetchAndCompare w st) = st \<and>
   posted (snd (fetchAndCompare w st)) = [] \<and>
   snd (fetchAndCompare w st) =
     logInfo ''Starting data fetch and comparison...'' @
     (if snd (loadBackupDataClasses st) \<noteq> None
      then logWarning ''Could not load old classes, possibly first run.'' else []) @
     (if snd (loadBackupDataAssignments st) \<noteq> None
      then logWarning ''Could not load old assignments, possibly first run.'' else []) @
     logError (''Failed to get student data: '' @ err)"
  by (simp add: fetchAndCompare_def Let_def posted_append posted_log split: prod.splits)

theorem fetch_failure_leaves_snapshots_witness:
  "GetStudent failing_world = Inl ''connection refused'' \<and>
   fst (fetchAndCompare failing_world sample_store) = sample_store \<and>
   posted (snd (fetchAndCompare failing_world sample_store)) = [] \<and>
   snd (fetchAndCompare failing_world sample_store) =
     logInfo ''Starting data fetch and comparison...'' @
     logWarning ''Could not load old assignments, possibly first run.'' @
     logError ''Failed to get student data: connection refused''"
proof -
  have g: "GetStudent failing_world = Inl ''connection refused''"
    by (simp add: failing_world_def)
  have l: "snd (loadBackupDataClasses sample_store) = None"
    "snd (loadBackupDataAssignments sample_store) = Some ''no such file''"
    by (simp_all add: loadBackupDataClasses_def loadBackupDataAssignments_def sample_store_def)
  from fetch_failure_leaves_snapshots [OF g, of sample_store] g
  show ?thesis
    by (simp add: l posted_append posted_log)
qed

subsection \<open>The projected assignments\<close>

lemma className_loop_find:
  "className_loop classes sectionid =
     (case find (\<lambda>c. c_ID c = sectionid) classes of Some c \<Rightarrow> c_Name c | None \<Rightarrow> [])"
  by (induction classes) auto

lemma psAssignment_loop_map:
  "psAssignment_loop acc b d scoreMap classes assignments =
     acc @
     map (\<lambda>a. \<lparr>a_ID = pa_Id a, a_Name = pa_Name a,
                 a_Grade = (case scoreMap (pa_Id a) of Some g \<Rightarrow> g | None \<Rightarrow> []),
                 a_ClassID = pa_Sectionid a,
                 a_ClassName = className_loop classes (pa_Sectionid a)\<rparr>)
       (filter (\<lambda>a. inWindow (b, d) (pa_DueDate a) \<and> scoreMap (pa_Id a) \<noteq> None) assignments)"
proof (induction assignments arbitrary: acc)
  case Nil
  then show ?case by simp
next
  case (Cons a assignments)
  show ?case
    by (cases "scoreMap (pa_Id a)")
      (auto simp: Cons.IH inWindow_def Before_def After_def)
qed

lemma assignmentScoreMap_loop_find:
  "assignmentScoreMap_loop m scores k =
     (case find (\<lambda>s. as_AssignmentId s = k \<and> as_Score s \<noteq> []) (rev scores) of
        Some s \<Rightarrow> Some (as_Score s @ ''%'')
      | None \<Rightarrow> m k)"
  by (induction scores arbitrary: m) (auto simp: find_app split: option.splits)

lemma assignmentScoreMapOf_find:
  "assignmentScoreMapOf scores k =
     (case find (\<lambda>s. as_AssignmentId s = k \<and> as_Score s \<noteq> []) (rev scores) of
        Some s \<Rightarrow> Some (as_Score s @ ''%'')
      | None \<Rightarrow> None)"
  by (simp add: assignmentScoreMapOf_def assignmentScoreMap_loop_find)

lemma assignmentScoreMapOf_None:
  "assignmentScoreMapOf scores k = None \<longleftrightarrow>
     (\<forall>s \<in> set scores. as_AssignmentId s = k \<longrightarrow> as_Score s = [])"
proof -
  have "assignmentScoreMapOf scores k = None \<longleftrightarrow>
        find (\<lambda>s. as_AssignmentId s = k \<and> as_Score s \<noteq> []) (rev scores) = None"
    by (simp add: assignmentScoreMapOf_find split: option.splits)
  also have "\<dots> \<longleftrightarrow> (\<forall>s \<in> set scores. \<not> (as_AssignmentId s = k \<and> as_Score s \<noteq> []))"
    unfolding find_None_iff by auto
  finally show ?thesis by blast
qed

lemma newAssignmentsOf_map:
  "newAssignmentsOf now student =
     map (\<lambda>a. \<lparr>a_ID = pa_Id a, a_Name = pa_Name a,
                 a_Grade =
                   (case assignmentScoreMapOf (AssignmentScores student) (pa_Id a) of
                      Some g \<Rightarrow> g | None \<Rightarrow> []),
                 a_ClassID = pa_Sectionid a,
                 a_ClassName =
                   (case find (\<lambda>c. c_ID c = pa_Sectionid a) (newClassesOf now student) of
                      Some c \<Rightarrow> c_Name c | None \<Rightarrow> [])\<rparr>)
       (filter (\<lambda>a. inWindow (termWindow now (ReportingTerms student)) (pa_DueDate a) \<and>
                     assignmentScoreMapOf (AssignmentScores student) (pa_Id a) \<noteq> None)
          (Assignments student))"
  by (simp add: newAssignmentsOf_def psAssignment_loop_map className_loop_find
      split: prod.splits)

text \<open>
  C4. The projected assignments are the raw assignments, in their order, whose due date is
  strictly inside the window and whose id has an entry in the score map; each gives one
  record, with the entry of the score map as grade, and as class name the name of the
  first projected class whose id is the section id, or the empty string when there is
  none. The score map holds, for an id, the last non-empty score recorded for it,
  followed by \<^verbatim>\<open>%\<close>; it has no entry for an id all of whose scores are empty, so an
  assignment whose score is empty is not projected.
\<close>

theorem projected_assignments:
  "newAssignmentsOf now student =
     map (\<lambda>a. \<lparr>a_ID = pa_Id a, a_Name = pa_Name a,
                 a_Grade =
                   (case assignmentScoreMapOf (AssignmentScores student) (pa_Id a) of
                      Some g \<Rightarrow> g | None \<Rightarrow> []),
                 a_ClassID = pa_Sectionid a,
                 a_ClassName =
                   (case find (\<lambda>c. c_ID c = pa_Sectionid a) (newClassesOf now student) of
                      Some c \<Rightarrow> c_Name c | None \<Rightarrow> [])\<rparr>)
       (filter (\<lambda>a. inWindow (termWindow now (ReportingTerms student)) (pa_DueDate a) \<and>
                     assignmentScoreMapOf (AssignmentScores student) (pa_Id a) \<noteq> None)
          (Assignments student)) \<and>
   assignmentScoreMapOf (AssignmentScores student) k =
     (case find (\<lambda>s. as_AssignmentId s = k \<and> as_Score s \<noteq> [])
             (rev (AssignmentScores student)) of
        Some s \<Rightarrow> Some (as_Score s @ ''%'')
      | None \<Rightarrow> None) \<and>
   ((\<forall>s \<in> set (AssignmentScores student). as_AssignmentId s = k \<longrightarrow> as_Score s = []) \<longrightarrow>
      k \<notin> a_ID ` set (newAssignmentsOf now student))"
proof (intro conjI impI)
  show "newAssignmentsOf now student =
     map (\<lambda>a. \<lparr>a_ID = pa_Id a, a_Name = pa_Name a,
                 a_Grade =
                   (case assignmentScoreMapOf (AssignmentScores student) (pa_Id a) of
                      Some g \<Rightarrow> g | None \<Rightarrow> []),
                 a_ClassID = pa_Sectionid a,
                 a_ClassName =
                   (case find (\<lambda>c. c_ID c = pa_Sectionid a) (newClassesOf now student) of
                      Some c \<Rightarrow> c_Name c | None \<Rightarrow> [])\<rparr>)
       (filter (\<lambda>a. inWindow (termWindow now (ReportingTerms student)) (pa_DueDate a) \<and>
                     assignmentScoreMapOf (AssignmentScores student) (pa_Id a) \<noteq> None)
          (Assignments student))"
    by (rule newAssignmentsOf_map)
  show "assignmentScoreMapOf (AssignmentScores student) k =
     (case find (\<lambda>s. as_AssignmentId s = k \<and> as_Score s \<noteq> [])
             (rev (AssignmentScores student)) of
        Some s \<Rightarrow> Some (as_Score s @ ''%'')
      | None \<Rightarrow> None)"
    by (rule assignmentScoreMapOf_find)
next
  assume "\<forall>s \<in> set (AssignmentScores student). as_AssignmentId s = k \<longrightarrow> as_Score s = []"
  then have "assignmentScoreMapOf (AssignmentScores student) k = None"
    by (simp add: assignmentScoreMapOf_None)
  then show "k \<notin> a_ID ` set (newAssignmentsOf now student)"
    by (auto simp: newAssignmentsOf_map)
qed

theorem projected_assignments_witness:
  "newAssignmentsOf (\<lambda>n. unix 1706745600) sample_student =
     [\<lparr>a_ID = 1, a_Name = ''HW1'', a_Grade = ''90%'', a_ClassID = 5, a_ClassName = ''Math''\<rparr>] \<and>
   assignmentScoreMapOf (AssignmentScores sample_student) 1 = Some ''90%'' \<and>
   assignmentScoreMapOf (AssignmentScores sample_student) 3 = None \<and>
   3 \<in> pa_Id ` set (Assignments sample_student) \<and>
   3 \<notin> a_ID ` set (newAssignmentsOf (\<lambda>n. unix 1706745600) sample_student)"
proof -
  have s: "\<forall>s \<in> set (AssignmentScores sample_student). as_AssignmentId s = 3 \<longrightarrow> as_Score s = []"
    by (simp add: sample_student_def)
  have i: "3 \<in> pa_Id ` set (Assignments sample_student)"
    by (simp add: sample_student_def)
  have "3 \<notin> a_ID ` set (newAssignmentsOf (\<lambda>n. unix 1706745600) sample_student)"
    using projected_assignments [of "\<lambda>n. unix 1706745600" sample_student 3] s by blast
  moreover have "assignmentScoreMapOf (AssignmentScores sample_student) 1 = Some ''90%''"
    using projected_assignments [of "\<lambda>n. unix 1706745600" sample_student 1]
    by (simp add: sample_student_def)
  moreover have "assignmentScoreMapOf (AssignmentScores sample_student) 3 = None"
    using projected_assignments [of "\<lambda>n. unix 1706745600" sample_student 3]
    by (simp add: sample_student_def)
  ultimately show ?thesis
    using i by (simp add: sample_newAssignments hw1_def)
qed

subsection \<open>The window of the active terms\<close>

lemma reportingTerm_loop_window:
  "snd (snd (reportingTerm_loop (\<lambda>n. now) (n, allowedTerms, b, d) terms)) =
     (fold min (map rt_StartDate (activeTerms now terms)) b,
      fold max (map rt_EndDate (activeTerms now terms)) d)"
proof (induction terms arbitrary: n allowedTerms b d)
  case Nil
  then show ?case by (simp add: activeTerms_def)
next
  case (Cons t terms)
  show ?case
  proof (cases "active now t")
    case True
    then have c: "After now (rt_StartDate t)" "Before now (rt_EndDate t)"
      "HasPrefix (rt_Title t) ''Q''"
      by (simp_all add: active_def After_def Before_def)
    have m: "(if After b (rt_StartDate t) then rt_StartDate t else b) = min (rt_StartDate t) b"
      "(if Before d (rt_EndDate t) then rt_EndDate t else d) = max (rt_EndDate t) d"
      by (simp_all add: After_def Before_def min_def max_def)
    have "activeTerms now (t # terms) = t # activeTerms now terms"
      using True by (simp add: activeTerms_def)
    then show ?thesis
      using c by (simp add: m Cons.IH)
  next
    case False
    then have a: "activeTerms now (t # terms) = activeTerms now terms"
      by (simp add: activeTerms_def)
    have "\<not> (After now (rt_StartDate t) \<and> Before now (rt_EndDate t) \<and>
             HasPrefix (rt_Title t) ''Q'')"
      using False by (simp add: active_def After_def Before_def)
    then show ?thesis
      unfolding a by (auto simp: Cons.IH)
  qed
qed

lemma termWindow_clipped:
  "termWindow (\<lambda>n. now) terms =
     (Min (insert date_2100_01_01 (rt_StartDate ` set (activeTerms now terms))),
      Max (insert date_2000_01_01 (rt_EndDate ` set (activeTerms now terms))))"
  using Min.set_eq_fold [of date_2100_01_01 "map rt_StartDate (activeTerms now terms)"]
    Max.set_eq_fold [of date_2000_01_01 "map rt_EndDate (activeTerms now terms)"]
  by (simp add: termWindow_def termState_def reportingTerm_loop_window)

lemma active_bounds:
  "t \<in> set (activeTerms now terms) \<Longrightarrow> rt_StartDate t < now \<and> now < rt_EndDate t"
  by (simp add: activeTerms_def active_def)

text \<open>
  C5, as amended. With a clock that reads \<open>now\<close> throughout the loop, the window is
  the earliest start date and the latest end date over all the active terms, clipped by
  the two dates the loop starts from: its lower bound is never later than 2100-01-01 and
  its upper bound never earlier than 2000-01-01. When a term is active and \<open>now\<close> is
  neither before 2000-01-01 nor after 2100-01-01, the window is the earliest start and
  the latest end of the active terms.
\<close>

theorem window_is_union_of_active_terms:
  "termWindow (\<lambda>n. now) terms =
     (Min (insert date_2100_01_01 (rt_StartDate ` set (activeTerms now terms))),
      Max (insert date_2000_01_01 (rt_EndDate ` set (activeTerms now terms)))) \<and>
   (activeTerms now terms \<noteq> [] \<and> date_2000_01_01 \<le> now \<and> now \<le> date_2100_01_01 \<longrightarrow>
      termWindow (\<lambda>n. now) terms =
        (Min (rt_StartDate ` set (activeTerms now terms)),
         Max (rt_EndDate ` set (activeTerms now terms))))"
proof (intro conjI impI)
  show "termWindow (\<lambda>n. now) terms =
     (Min (insert date_2100_01_01 (rt_StartDate ` set (activeTerms now terms))),
      Max (insert date_2000_01_01 (rt_EndDate ` set (activeTerms now terms))))"
    by (rule termWindow_clipped)
next
  assume "activeTerms now terms \<noteq> [] \<and> date_2000_01_01 \<le> now \<and> now \<le> date_2100_01_01"
  then have ne: "activeTerms now terms \<noteq> []" and lo: "date_2000_01_01 \<le> now"
    and hi: "now \<le> date_2100_01_01"
    by simp_all
  let ?S = "rt_StartDate ` set (activeTerms now terms)"
  let ?E = "rt_EndDate ` set (activeTerms now terms)"
  have fin: "finite ?S" "finite ?E" and nonempty: "?S \<noteq> {}" "?E \<noteq> {}"
    using ne by simp_all
  have "Min ?S \<in> ?S" by (rule Min_in [OF fin(1) nonempty(1)])
  then have "Min ?S < now" using active_bounds by auto
  then have s: "min date_2100_01_01 (Min ?S) = Min ?S"
    using hi by simp
  have "Max ?E \<in> ?E" by (rule Max_in [OF fin(2) nonempty(2)])
  then have "now < Max ?E" using active_bounds by auto
  then have e: "max date_2000_01_01 (Max ?E) = Max ?E"
    using lo by simp
  show "termWindow (\<lambda>n. now) terms = (Min ?S, Max ?E)"
    using s e by (simp add: termWindow_clipped Min_insert [OF fin(1) nonempty(1)]
        Max_insert [OF fin(2) nonempty(2)])
qed

lemma two_quarters_active: "activeTerms (unix 1706745600) two_quarters = two_quarters"
  by (simp add: activeTerms_def active_def two_quarters_def unix_def HasPrefix_def)

theorem window_is_union_of_active_terms_witness:
  "activeTerms (unix 1706745600) two_quarters \<noteq> [] \<and>
   date_2000_01_01 \<le> unix 1706745600 \<and> unix 1706745600 \<le> date_2100_01_01 \<and>
   termWindow (\<lambda>n. unix 1706745600) two_quarters = (unix 1704067200, unix 1717200000)"
proof -
  have b: "date_2000_01_01 \<le> unix 1706745600" "unix 1706745600 \<le> date_2100_01_01"
    by (simp_all add: unix_def date_2000_01_01_def date_2100_01_01_def)
  have n: "activeTerms (unix 1706745600) two_quarters \<noteq> []"
    by (simp add: two_quarters_active) (simp add: two_quarters_def)
  have m: "Min (rt_StartDate ` set two_quarters) = unix 1704067200"
    "Max (rt_EndDate ` set two_quarters) = unix 1717200000"
    by (simp_all add: two_quarters_def unix_def)
  from window_is_union_of_active_terms [of "unix 1706745600" two_quarters, THEN conjunct2] n b
  have "termWindow (\<lambda>n. unix 1706745600) two_quarters =
        (Min (rt_StartDate ` set (activeTerms (unix 1706745600) two_quarters)),
         Max (rt_EndDate ` set (activeTerms (unix 1706745600) two_quarters)))"
    by blast
  then show ?thesis
    using n b by (simp add: two_quarters_active m)
qed

text \<open>
  C5, as stated, fails when the clock is before 2000-01-01: a quarter of 1999, active in
  June 1999, ends before the date the upper bound starts from, which stays the upper bound.
\<close>

theorem window_before_2000_counterexample:
  "activeTerms (unix 928195200) [q_1999] = [q_1999] \<and>
   termWindow (\<lambda>n. unix 928195200) [q_1999] = (unix 915148800, date_2000_01_01) \<and>
   Max (rt_EndDate ` set (activeTerms (unix 928195200) [q_1999])) = unix 944006400 \<and>
   termWindow (\<lambda>n. unix 928195200) [q_1999] \<noteq>
     (Min (rt_StartDate ` set (activeTerms (unix 928195200) [q_1999])),
      Max (rt_EndDate ` set (activeTerms (unix 928195200) [q_1999])))"
proof -
  have a: "activeTerms (unix 928195200) [q_1999] = [q_1999]"
    by (simp add: activeTerms_def active_def q_1999_def unix_def HasPrefix_def)
  have w: "termWindow (\<lambda>n. unix 928195200) [q_1999] = (unix 915148800, date_2000_01_01)"
    by (simp add: termWindow_def termState_def q_1999_def unix_def After_def Before_def
        HasPrefix_def date_2000_01_01_def date_2100_01_01_def)
  show ?thesis
    unfolding a w by (simp add: q_1999_def unix_def date_2000_01_01_def)
qed

subsection \<open>No active term\<close>

text \<open>
  C6. When no term with the prefix \<^verbatim>\<open>Q\<close> has \<open>now\<close> strictly between its dates, the
  window keeps the two dates the loop starts from, 2100-01-01 as lower bound and
  2000-01-01 as upper bound: the lower bound is later than the upper bound, no due date is
  strictly inside, and no assignment is projected.
\<close>

theorem no_active_term_no_assignment:
  "\<forall>t \<in> set (ReportingTerms student).
      \<not> (HasPrefix (rt_Title t) ''Q'' \<and> rt_StartDate t < now \<and> now < rt_EndDate t) \<Longrightarrow>
   termWindow (\<lambda>n. now) (ReportingTerms student) = (date_2100_01_01, date_2000_01_01) \<and>
   snd (termWindow (\<lambda>n. now) (ReportingTerms student)) <
     fst (termWindow (\<lambda>n. now) (ReportingTerms student)) \<and>
   \<not> inWindow (termWindow (\<lambda>n. now) (ReportingTerms student)) dueDate \<and>
   newAssignmentsOf (\<lambda>n. now) student = []"
proof -
  assume h: "\<forall>t \<in> set (ReportingTerms student).
      \<not> (HasPrefix (rt_Title t) ''Q'' \<and> rt_StartDate t < now \<and> now < rt_EndDate t)"
  then have "activeTerms now (ReportingTerms student) = []"
    by (auto simp: activeTerms_def active_def filter_empty_conv)
  then have w: "termWindow (\<lambda>n. now) (ReportingTerms student) = (date_2100_01_01, date_2000_01_01)"
    by (simp add: termWindow_clipped)
  have lt: "date_2000_01_01 < date_2100_01_01"
    by (simp add: date_2000_01_01_def date_2100_01_01_def)
  have n: "\<not> inWindow (date_2100_01_01, date_2000_01_01) d" for d
    using lt by (simp add: inWindow_def)
  show ?thesis
    using lt n by (simp add: w newAssignmentsOf_map)
qed

theorem no_active_term_no_assignment_witness:
  "list_all (\<lambda>t. \<not> (HasPrefix (rt_Title t) ''Q'' \<and> rt_StartDate t < unix 1717200000 \<and>
                      unix 1717200000 < rt_EndDate t)) (ReportingTerms sample_student) \<and>
   termWindow (\<lambda>n. unix 1717200000) (ReportingTerms sample_student) =
     (date_2100_01_01, date_2000_01_01) \<and>
   \<not> inWindow (termWindow (\<lambda>n. unix 1717200000) (ReportingTerms sample_student))
       (unix 1707955200) \<and>
   newAssignmentsOf (\<lambda>n. unix 1717200000) sample_student = []"
proof -
  have h: "\<forall>t \<in> set (ReportingTerms sample_student).
      \<not> (HasPrefix (rt_Title t) ''Q'' \<and> rt_StartDate t < unix 1717200000 \<and>
         unix 1717200000 < rt_EndDate t)"
    by (simp add: sample_student_def unix_def)
  from no_active_term_no_assignment [OF h, of "unix 1707955200"] h
  show ?thesis unfolding list_all_iff by blast
qed

end
